theory Spec2Isabelle
  imports Main "HOL-Library.Char_ord" "HOL-Library.List_Lexorder"
begin

section \<open>Data model\<close>

text \<open>
  One row of the sales table built by \<^verbatim>\<open>generate_sales_data\<close>. The four columns are
  \<^verbatim>\<open>Date\<close>, \<^verbatim>\<open>Category\<close>, \<^verbatim>\<open>Sales\<close> and \<^verbatim>\<open>Profit\<close>. A date is a calendar day, kept as the
  number of days since 1970-01-01; amounts are Python integers. A data frame is the list
  of its rows in row order. The range of the library's timestamps is checked where the
  dates are made, in \<open>date_range\<close>; the 64-bit width of its sums is not part of the
  model: amounts are unbounded integers.
\<close>

record row =
  Date :: int
  Category :: string
  Sales :: int
  Profit :: int

type_synonym dataframe = "row list"

section \<open>Chart builder: \<^verbatim>\<open>create_dashboard\<close>\<close>

text \<open>
  \<^verbatim>\<open>df.groupby('Category')['Sales'].sum().reset_index()\<close>: the rows are collected into
  groups keyed by category, in the order in which the keys are met, each group holding
  the running sum of its \<^verbatim>\<open>Sales\<close>; \<^verbatim>\<open>groupby\<close> is called with its default \<^verbatim>\<open>sort=True\<close>,
  so the groups are then put in ascending order of their key. Keys are strings and are
  compared as Python compares strings: lexicographically, character by character.
\<close>

fun add_to_group :: "string \<Rightarrow> int \<Rightarrow> (string \<times> int) list \<Rightarrow> (string \<times> int) list" where
  "add_to_group k v [] = [(k, v)]"
| "add_to_group k v ((k', t) # gs) =
     (if k = k' then (k', t + v) # gs else (k', t) # add_to_group k v gs)"

definition collect_groups :: "dataframe \<Rightarrow> (string \<times> int) list \<Rightarrow> (string \<times> int) list" where
  "collect_groups df gs = foldl (\<lambda>acc r. add_to_group (Category r) (Sales r) acc) gs df"

definition groupby_sum :: "dataframe \<Rightarrow> (string \<times> int) list" where
  "groupby_sum df = sort_key fst (collect_groups df [])"

text \<open>
  The result of \<^verbatim>\<open>create_dashboard\<close>, cut down to the data the two figures are bound to:
  the line and scatter glyphs read the whole frame; the bar figure reads the grouped
  frame, and takes \<^verbatim>\<open>categories_list\<close> both as its \<^verbatim>\<open>x_range\<close> and as the factors of its
  colour map.
\<close>

record bar_figure =
  x_range :: "string list"
  factors :: "string list"
  bar_source :: "(string \<times> int) list"

record layout =
  p_line :: dataframe
  p_bar :: bar_figure

definition create_dashboard :: "dataframe \<Rightarrow> layout" where
  "create_dashboard df =
     (let source = df;
          df_grouped = groupby_sum df;
          source_grouped = df_grouped;
          categories_list = map fst df_grouped
      in \<lparr>p_line = source,
          p_bar = \<lparr>x_range = categories_list, factors = categories_list,
                   bar_source = source_grouped\<rparr>\<rparr>)"

text \<open>
  The order the specification describes for the aggregated categories: each category
  once, at the place of its first appearance among the rows.
\<close>

definition first_appearance_order :: "string list \<Rightarrow> string list" where
  "first_appearance_order ks = foldl (\<lambda>acc k. if k \<in> set acc then acc else acc @ [k]) [] ks"

text \<open>The sum of \<^verbatim>\<open>Sales\<close> over the rows of one category.\<close>

definition category_sales :: "dataframe \<Rightarrow> string \<Rightarrow> int" where
  "category_sales df k = sum_list (map Sales (filter (\<lambda>r. Category r = k) df))"

definition two_rows :: dataframe where
  "two_rows = [\<lparr>Date = 19358, Category = ''Toys'', Sales = 100, Profit = 10\<rparr>,
               \<lparr>Date = 19361, Category = ''Clothing'', Sales = 250, Profit = 20\<rparr>]"

definition three_rows :: dataframe where
  "three_rows = [\<lparr>Date = 19358, Category = ''Home'', Sales = 100, Profit = 10\<rparr>,
                 \<lparr>Date = 19361, Category = ''Clothing'', Sales = 250, Profit = 20\<rparr>,
                 \<lparr>Date = 19364, Category = ''Home'', Sales = 300, Profit = 30\<rparr>]"

text \<open>
  The running total of a key: what the groups hold for it, or nothing yet.
\<close>

definition held :: "(string \<times> int) list \<Rightarrow> string \<Rightarrow> int" where
  "held gs k = (case map_of gs k of None \<Rightarrow> 0 | Some t \<Rightarrow> t)"

section \<open>Exceptions\<close>

text \<open>
  The text an exception carries. The one exception the program raises itself, at the
  empty file name, has a fixed message; every other text comes from a library.
\<close>

datatype message = Filename_empty | Library_text string

text \<open>
  Exceptions by the class the handlers of \<^verbatim>\<open>main\<close> tell apart: \<^verbatim>\<open>ValueError\<close> and
  \<^verbatim>\<open>OSError\<close> (each with its subclasses), any other class derived from \<^verbatim>\<open>Exception\<close>,
  and the classes derived from \<^verbatim>\<open>BaseException\<close> only, such as \<^verbatim>\<open>KeyboardInterrupt\<close>,
  which no handler of \<^verbatim>\<open>main\<close> names.
\<close>

datatype exn =
    ValueError message
  | OSError message
  | OtherException message
  | BaseOnly message

section \<open>Data generator: \<^verbatim>\<open>generate_sales_data\<close>\<close>

text \<open>
  The libraries the generator calls are taken as a parameter. Of \<^verbatim>\<open>numpy.random\<close>:
  \<open>rng_seed k\<close> is the generator state that \<^verbatim>\<open>np.random.seed(k)\<close> installs;
  \<open>rng_choice xs n g\<close> is what \<^verbatim>\<open>np.random.choice(xs, n)\<close> gives from state \<open>g\<close>, its
  \<open>n\<close> draws or the exception it raises, with the state it leaves; \<open>rng_randint lo hi n g\<close>
  is the same for \<^verbatim>\<open>np.random.randint(lo, hi, n)\<close>. Of \<^verbatim>\<open>pandas\<close>: \<open>date_range_raises p\<close> is
  the exception \<^verbatim>\<open>pd.date_range\<close> raises for a number \<open>p\<close> of periods it refuses; its
  class depends on the number and on the versions of the libraries (an
  \<^verbatim>\<open>OverflowError\<close>, or \<^verbatim>\<open>OutOfBoundsDatetime\<close>, which is a \<^verbatim>\<open>ValueError\<close>).
\<close>

record 'g library =
  rng_seed :: "nat \<Rightarrow> 'g"
  rng_choice :: "string list \<Rightarrow> nat \<Rightarrow> 'g \<Rightarrow> (exn + string list) \<times> 'g"
  rng_randint :: "int \<Rightarrow> int \<Rightarrow> nat \<Rightarrow> 'g \<Rightarrow> (exn + int list) \<times> 'g"
  date_range_raises :: "int \<Rightarrow> exn"

text \<open>
  What the library documents of the two draws: \<open>n\<close> values come back, each an element
  of the population, respectively an integer from \<open>lo\<close> (inclusive) to \<open>hi\<close> (exclusive).
\<close>

definition rng_contract :: "'g library \<Rightarrow> bool" where
  "rng_contract R \<longleftrightarrow>
     (\<forall>xs n g. xs \<noteq> [] \<longrightarrow>
        (\<exists>ys. fst (rng_choice R xs n g) = Inr ys \<and> length ys = n \<and> set ys \<subseteq> set xs)) \<and>
     (\<forall>lo hi n g. lo < hi \<longrightarrow>
        (\<exists>ys. fst (rng_randint R lo hi n g) = Inr ys \<and> length ys = n \<and>
              (\<forall>x \<in> set ys. lo \<le> x \<and> x < hi)))"

text \<open>\<^verbatim>\<open>np.random.seed(k)\<close> replaces the state of the process-wide generator.\<close>

definition np_random_seed :: "'g library \<Rightarrow> nat \<Rightarrow> 'g \<Rightarrow> 'g" where
  "np_random_seed R k g = rng_seed R k"

text \<open>
  The number of a calendar day (year, month, day of the proleptic Gregorian calendar),
  counted from 1970-01-01, and the start of the date range, \<^verbatim>\<open>'2023-01-01'\<close>.
\<close>

definition days_from_civil :: "int \<Rightarrow> int \<Rightarrow> int \<Rightarrow> int" where
  "days_from_civil y m d =
     (let y' = (if m \<le> 2 then y - 1 else y);
          era = y' div 400;
          yoe = y' - era * 400;
          doy = (153 * (if m > 2 then m - 3 else m + 9) + 2) div 5 + d - 1;
          doe = yoe * 365 + yoe div 4 - yoe div 100 + doy
      in era * 146097 + doe - 719468)"

definition epoch :: int where
  "epoch = days_from_civil 2023 1 1"

definition categories :: "string list" where
  "categories = [''Electronics'', ''Clothing'', ''Home'', ''Garden'', ''Toys'', ''Sports'']"

text \<open>
  The last day of the timestamps of \<^verbatim>\<open>pandas\<close> 2, which are 64-bit counts of nanoseconds
  from 1970-01-01: \<^verbatim>\<open>Timestamp.max\<close> falls on 2262-04-11.
\<close>

definition Timestamp_max :: int where
  "Timestamp_max = days_from_civil 2262 4 11"

text \<open>The days \<open>start\<close>, \<open>start + step\<close>, ..., \<open>n\<close> of them.\<close>

definition day_steps :: "int \<Rightarrow> nat \<Rightarrow> int \<Rightarrow> int list" where
  "day_steps start n step = map (\<lambda>i. start + step * int i) [0..<n]"

text \<open>
  \<^verbatim>\<open>pd.date_range(start, periods=periods, freq='3D')\<close> with the step in days, for a
  positive step: the call refuses a negative number of periods, and a range whose last
  day is after the last timestamp.
\<close>

definition date_range :: "'g library \<Rightarrow> int \<Rightarrow> int \<Rightarrow> int \<Rightarrow> exn + int list" where
  "date_range R start periods step =
     (if periods < 0 \<or> (0 < periods \<and> Timestamp_max < start + step * (periods - 1))
      then Inl (date_range_raises R periods)
      else Inr (day_steps start (nat periods) step))"

text \<open>
  \<^verbatim>\<open>pd.DataFrame(data)\<close> for the four columns: the columns must have one length, else
  the constructor raises \<^verbatim>\<open>ValueError\<close>.
\<close>

definition DataFrame ::
  "int list \<Rightarrow> string list \<Rightarrow> int list \<Rightarrow> int list \<Rightarrow> exn + dataframe" where
  "DataFrame ds cs ss ps =
     (if length cs = length ds \<and> length ss = length ds \<and> length ps = length ds
      then Inr (map (\<lambda>(d, c, s, p). \<lparr>Date = d, Category = c, Sales = s, Profit = p\<rparr>)
                    (zip ds (zip cs (zip ss ps))))
      else Inl (ValueError (Library_text ''All arrays must be of the same length'')))"

text \<open>\<^verbatim>\<open>df.sort_values('Date')\<close>: the rows in ascending order of their date.\<close>

definition sort_values_Date :: "dataframe \<Rightarrow> dataframe" where
  "sort_values_Date df = sort_key Date df"

text \<open>
  \<^verbatim>\<open>generate_sales_data(rows)\<close>, from the state \<open>g0\<close> of the process-wide generator; the
  result comes with the state the call leaves. The four columns are computed in the
  order of the dictionary, the dates first; the first call that raises ends the
  function.
\<close>

definition generate_sales_data :: "'g library \<Rightarrow> int \<Rightarrow> 'g \<Rightarrow> (exn + dataframe) \<times> 'g" where
  "generate_sales_data R rows g0 =
     (let g1 = np_random_seed R 42 g0
      in case date_range R epoch rows 3 of
           Inl e \<Rightarrow> (Inl e, g1)
         | Inr dates \<Rightarrow>
            (let (cats, g2) = rng_choice R categories (nat rows) g1
             in case cats of
                  Inl e \<Rightarrow> (Inl e, g2)
                | Inr cats \<Rightarrow>
                   (let (sales, g3) = rng_randint R 100 1000 (nat rows) g2
                    in case sales of
                         Inl e \<Rightarrow> (Inl e, g3)
                       | Inr sales \<Rightarrow>
                          (let (profit, g4) = rng_randint R 10 300 (nat rows) g3
                           in case profit of
                                Inl e \<Rightarrow> (Inl e, g4)
                              | Inr profit \<Rightarrow>
                                 (case DataFrame dates cats sales profit of
                                    Inl e \<Rightarrow> (Inl e, g4)
                                  | Inr df \<Rightarrow> (Inr (sort_values_Date df), g4))))))"

text \<open>The default of the parameter \<^verbatim>\<open>rows\<close>.\<close>

definition rows_default :: int where
  "rows_default = 100"

section \<open>Entry point: \<^verbatim>\<open>main\<close>\<close>

text \<open>
  \<^verbatim>\<open>str.strip()\<close> and \<^verbatim>\<open>str.endswith\<close> on strings of 8-bit characters; the white space
  of \<^verbatim>\<open>strip\<close> is what \<^verbatim>\<open>str.isspace\<close> accepts among the first 256 code points.
\<close>

definition isspace :: "char \<Rightarrow> bool" where
  "isspace c \<longleftrightarrow> of_char c \<in> {9, 10, 11, 12, 13, 28, 29, 30, 31, 32, 133, 160 :: nat}"

definition strip :: "string \<Rightarrow> string" where
  "strip s = rev (dropWhile isspace (rev (dropWhile isspace s)))"

definition endswith :: "string \<Rightarrow> string \<Rightarrow> bool" where
  "endswith s suffix \<longleftrightarrow>
     length suffix \<le> length s \<and> drop (length s - length suffix) s = suffix"

text \<open>The lines the program prints, by the statement that prints them.\<close>

datatype line =
    Banner
  | Prompt
  | Step_generate
  | Step_build
  | Step_save string
  | Success string
  | Input_error message
  | Fs_error message
  | Unexpected_error message

text \<open>The stages \<^verbatim>\<open>main\<close> calls, the last with the file name it is given.\<close>

datatype stage = Generate | Build | Save string

text \<open>
  What a run meets outside the program: the line \<^verbatim>\<open>input\<close> returns or the exception it
  raises, whether a call of the charting library raises while the charts are built, for
  each path whether writing the report there raises, and the state of the process-wide
  random number generator at the start.
\<close>

record 'g world =
  stdin_line :: "exn + string"
  build_fails :: "exn option"
  save_fails :: "string \<Rightarrow> exn option"
  np_state0 :: 'g

text \<open>
  What a run has done so far: the lines printed, the stages called, the files written
  with their content, and the state of the random number generator.
\<close>

record 'g run =
  stdout :: "line list"
  stages :: "stage list"
  files :: "(string \<times> layout) list"
  np_state :: 'g

definition print_line :: "line \<Rightarrow> 'g run \<Rightarrow> 'g run" where
  "print_line l s = s\<lparr>stdout := stdout s @ [l]\<rparr>"

definition enter :: "stage \<Rightarrow> 'g run \<Rightarrow> 'g run" where
  "enter st s = s\<lparr>stages := stages s @ [st]\<rparr>"

text \<open>
  \<^verbatim>\<open>save_report(layout, filename)\<close>: the file is written unless the write raises.
\<close>

definition save_report :: "'g world \<Rightarrow> layout \<Rightarrow> string \<Rightarrow> 'g run \<Rightarrow> exn option \<times> 'g run" where
  "save_report W lay filename s =
     (case save_fails W filename of
        Some e \<Rightarrow> (Some e, s)
      | None \<Rightarrow> (None, s\<lparr>files := files s @ [(filename, lay)]\<rparr>))"

text \<open>
  The body of the \<^verbatim>\<open>try\<close> statement: the exception that leaves it, if any, and the run
  up to there.
\<close>

definition try_body :: "'g library \<Rightarrow> 'g world \<Rightarrow> 'g run \<Rightarrow> exn option \<times> 'g run" where
  "try_body R W s0 =
     (let s1 = print_line Prompt s0
      in case stdin_line W of
           Inl e \<Rightarrow> (Some e, s1)
         | Inr answer \<Rightarrow>
            (let user_filename = strip answer
             in if user_filename = [] then (Some (ValueError Filename_empty), s1)
                else
                  (let user_filename =
                         (if \<not> endswith user_filename ''.html''
                          then user_filename @ ''.html'' else user_filename);
                       s2 = enter Generate (print_line Step_generate s1);
                       (res, g) = generate_sales_data R rows_default (np_state s2);
                       s3 = s2\<lparr>np_state := g\<rparr>
                   in case res of
                        Inl e \<Rightarrow> (Some e, s3)
                      | Inr df \<Rightarrow>
                         (let s4 = enter Build (print_line Step_build s3)
                          in case build_fails W of
                               Some e \<Rightarrow> (Some e, s4)
                             | None \<Rightarrow>
                                (let dashboard_layout = create_dashboard df;
                                     s5 = enter (Save user_filename)
                                            (print_line (Step_save user_filename) s4);
                                     (raised, s6) =
                                        save_report W dashboard_layout user_filename s5
                                 in case raised of
                                      Some e \<Rightarrow> (Some e, s6)
                                    | None \<Rightarrow>
                                       (None, print_line (Success user_filename) s6))))))"

text \<open>
  The three \<^verbatim>\<open>except\<close> clauses in their order: the line each prints for the exception
  it catches. An exception that none of them catches leaves \<^verbatim>\<open>main\<close>.
\<close>

fun except_clauses :: "exn \<Rightarrow> 'g run \<Rightarrow> 'g run \<times> exn option" where
  "except_clauses (ValueError ve) s = (print_line (Input_error ve) s, None)"
| "except_clauses (OSError oe) s = (print_line (Fs_error oe) s, None)"
| "except_clauses (OtherException e) s = (print_line (Unexpected_error e) s, None)"
| "except_clauses (BaseOnly e) s = (s, Some (BaseOnly e))"

text \<open>
  \<^verbatim>\<open>main\<close>: the banner, the body, and the handlers. The result is the finished run and
  the exception that leaves \<^verbatim>\<open>main\<close>, if any; when none does, the script ends after
  \<^verbatim>\<open>main\<close> returns and the process exits with status 0.
\<close>

definition main :: "'g library \<Rightarrow> 'g world \<Rightarrow> 'g run \<times> exn option" where
  "main R W =
     (let s0 = print_line Banner \<lparr>stdout = [], stages = [], files = [], np_state = np_state0 W\<rparr>;
          (raised, s) = try_body R W s0
      in case raised of
           None \<Rightarrow> (s, None)
         | Some e \<Rightarrow> except_clauses e s)"

section \<open>A small library and sample runs\<close>

text \<open>
  A library to run the program on: a linear congruential generator that meets
  \<open>rng_contract\<close>, and for the date ranges refused the exceptions of \<^verbatim>\<open>pandas\<close> 2 on
  \<^verbatim>\<open>numpy\<close> 2, an \<^verbatim>\<open>OverflowError\<close> for a negative number of periods and
  \<^verbatim>\<open>OutOfBoundsDatetime\<close> past the last timestamp.
\<close>

definition lcg :: "nat \<Rightarrow> nat" where
  "lcg g = (75 * g + 74) mod 65537"

fun lcg_draws :: "nat \<Rightarrow> nat \<Rightarrow> nat list \<times> nat" where
  "lcg_draws 0 g = ([], g)"
| "lcg_draws (Suc n) g = (let g' = lcg g; (ds, g'') = lcg_draws n g' in (g' # ds, g''))"

definition lcg_random :: "nat library" where
  "lcg_random =
     \<lparr>rng_seed = (\<lambda>k. k mod 65537),
      rng_choice = (\<lambda>xs n g. let (ds, g') = lcg_draws n g
                              in (Inr (map (\<lambda>d. xs ! (d mod length xs)) ds), g')),
      rng_randint = (\<lambda>lo hi n g. let (ds, g') = lcg_draws n g
                                  in (Inr (map (\<lambda>d. lo + int d mod (hi - lo)) ds), g')),
      date_range_raises =
        (\<lambda>p. if p < 0 then OtherException (Library_text ''out of bounds for uint64'')
              else ValueError (Library_text ''Cannot generate range''))\<rparr>"

definition sample_world :: "string \<Rightarrow> nat world" where
  "sample_world answer =
     \<lparr>stdin_line = Inr answer, build_fails = None, save_fails = (\<lambda>p. None), np_state0 = 7\<rparr>"

definition read_only_world :: "string \<Rightarrow> nat world" where
  "read_only_world answer =
     \<lparr>stdin_line = Inr answer, build_fails = None,
      save_fails = (\<lambda>p. Some (OSError (Library_text ''Permission denied''))),
      np_state0 = 7\<rparr>"

text \<open>A run whose standard input is at its end: \<^verbatim>\<open>input\<close> raises \<^verbatim>\<open>EOFError\<close>.\<close>

definition closed_input_world :: "nat world" where
  "closed_input_world =
     \<lparr>stdin_line = Inl (OtherException (Library_text ''EOF when reading a line'')),
      build_fails = None, save_fails = (\<lambda>p. None), np_state0 = 7\<rparr>"

section \<open>Properties of the aggregation\<close>

lemma keys_add_to_group:
  "fst ` set (add_to_group k v gs) = insert k (fst ` set gs)"
proof (induction gs)
  case Nil
  show ?case by simp
next
  case (Cons g gs)
  obtain k' t where g: "g = (k', t)" by (cases g)
  show ?case
  proof (cases "k = k'")
    case True
    then show ?thesis by (simp add: g)
  next
    case False
    with Cons.IH show ?thesis by (simp add: g insert_commute)
  qed
qed

lemma distinct_add_to_group:
  "distinct (map fst gs) \<Longrightarrow> distinct (map fst (add_to_group k v gs))"
proof (induction gs)
  case Nil
  show ?case by simp
next
  case (Cons g gs)
  obtain k' t where g: "g = (k', t)" by (cases g)
  from Cons.prems have "k' \<notin> fst ` set gs" and "distinct (map fst gs)"
    by (simp_all add: g)
  with Cons.IH show ?case
    by (simp add: g keys_add_to_group)
qed

lemma map_of_add_to_group:
  "map_of (add_to_group k v gs) =
     (map_of gs)(k \<mapsto> (case map_of gs k of None \<Rightarrow> v | Some t \<Rightarrow> t + v))"
  by (induction gs) (auto simp: fun_eq_iff)

lemma sum_add_to_group:
  "sum_list (map snd (add_to_group k v gs)) = sum_list (map snd gs) + v"
  by (induction gs) auto

lemma keys_collect_groups:
  "fst ` set (collect_groups df gs) = fst ` set gs \<union> Category ` set df"
proof (induction df arbitrary: gs)
  case Nil
  show ?case by (simp add: collect_groups_def)
next
  case (Cons r df)
  have "collect_groups (r # df) gs = collect_groups df (add_to_group (Category r) (Sales r) gs)"
    by (simp add: collect_groups_def)
  then show ?case
    by (simp add: Cons.IH keys_add_to_group Un_commute insert_commute)
qed

lemma distinct_collect_groups:
  "distinct (map fst gs) \<Longrightarrow> distinct (map fst (collect_groups df gs))"
  unfolding collect_groups_def
  by (induction df arbitrary: gs) (auto simp: distinct_add_to_group)

lemma sum_collect_groups:
  "sum_list (map snd (collect_groups df gs)) = sum_list (map snd gs) + sum_list (map Sales df)"
  unfolding collect_groups_def
  by (induction df arbitrary: gs) (auto simp: sum_add_to_group)

lemma held_add_to_group:
  "held (add_to_group k v gs) k' = held gs k' + (if k' = k then v else 0)"
  by (simp add: held_def map_of_add_to_group split: option.splits)

lemma held_collect_groups:
  "held (collect_groups df gs) k = held gs k + category_sales df k"
  unfolding collect_groups_def category_sales_def
  by (induction df arbitrary: gs) (auto simp: held_add_to_group)

lemma held_member:
  assumes "distinct (map fst gs)" and "(k, t) \<in> set gs"
  shows "held gs k = t"
  using assms by (simp add: held_def)

lemma sum_insort_key:
  "sum_list (map f (insort_key g x xs)) = f x + sum_list (map f xs)"
  for f :: "'a \<Rightarrow> int"
  by (induction xs) auto

lemma sum_sort_key:
  "sum_list (map f (sort_key g xs)) = sum_list (map f xs)"
  for f :: "'a \<Rightarrow> int"
  by (induction xs) (auto simp: sum_insort_key)

lemma groupby_sum_keys_set:
  "set (map fst (groupby_sum df)) = set (map Category df)"
proof -
  have "set (map fst (groupby_sum df)) = fst ` set (collect_groups df [])"
    by (simp add: groupby_sum_def)
  also have "\<dots> = set (map Category df)"
    by (simp add: keys_collect_groups)
  finally show ?thesis .
qed

lemma groupby_sum_keys_distinct: "distinct (map fst (groupby_sum df))"
proof -
  have "distinct (map fst (collect_groups df []))"
    by (rule distinct_collect_groups) simp
  then show ?thesis
    by (simp add: groupby_sum_def distinct_map)
qed

lemma groupby_sum_keys_ascending: "sorted_wrt (<) (map fst (groupby_sum df))"
proof -
  have "sorted (map fst (groupby_sum df))"
    by (simp add: groupby_sum_def)
  with groupby_sum_keys_distinct [of df] show ?thesis
    by (simp add: strict_sorted_iff)
qed

lemma groupby_sum_totals:
  assumes "(k, t) \<in> set (groupby_sum df)"
  shows "t = category_sales df k"
proof -
  let ?gs = "collect_groups df []"
  have d: "distinct (map fst ?gs)"
    by (rule distinct_collect_groups) simp
  from assms have "(k, t) \<in> set ?gs"
    by (simp add: groupby_sum_def)
  with d have "held ?gs k = t"
    by (rule held_member)
  moreover have "held ?gs k = category_sales df k"
    by (simp add: held_collect_groups) (simp add: held_def)
  ultimately show ?thesis by simp
qed

lemma groupby_sum_total_sales:
  "sum_list (map snd (groupby_sum df)) = sum_list (map Sales df)"
  by (simp add: groupby_sum_def sum_sort_key sum_collect_groups)

lemma bar_source_create_dashboard:
  "bar_source (p_bar (create_dashboard df)) = groupby_sum df"
  by (simp add: create_dashboard_def Let_def)

lemma x_range_create_dashboard:
  "x_range (p_bar (create_dashboard df)) = map fst (groupby_sum df)"
  by (simp add: create_dashboard_def Let_def)

lemma p_line_create_dashboard: "p_line (create_dashboard df) = df"
  by (simp add: create_dashboard_def Let_def)

section \<open>Claims on the chart builder\<close>

text \<open>
  Claim C1, as the specification states it: the aggregated rows of the bar chart are the
  rows grouped by category with the sales summed per group, and the categories stand in
  the order of their first appearance, not sorted. The second half fails: on two rows
  with the categories Toys, Clothing in this order the bar chart lists Clothing first.
\<close>

theorem C1_first_appearance_counterexample:
  "map fst (bar_source (p_bar (create_dashboard two_rows)))
     \<noteq> first_appearance_order (map Category two_rows)"
  by (simp add: bar_source_create_dashboard groupby_sum_def collect_groups_def two_rows_def
      first_appearance_order_def)

text \<open>
  Claim C1, amended: for every data frame, the aggregated rows of the bar chart hold each
  category of the frame exactly once, in strictly ascending (lexicographic) order of the
  category name; the total of each is the sum of the sales of the rows of that category;
  and the category axis of the chart lists the categories in this same order.
\<close>

theorem C1_aggregation_ascending_categories:
  "sorted_wrt (<) (map fst (bar_source (p_bar (create_dashboard df)))) \<and>
   set (map fst (bar_source (p_bar (create_dashboard df)))) = set (map Category df) \<and>
   (\<forall>(k, t) \<in> set (bar_source (p_bar (create_dashboard df))). t = category_sales df k) \<and>
   x_range (p_bar (create_dashboard df)) = map fst (bar_source (p_bar (create_dashboard df)))"
proof -
  have src: "bar_source (p_bar (create_dashboard df)) = groupby_sum df"
    by (rule bar_source_create_dashboard)
  have axis: "x_range (p_bar (create_dashboard df)) = map fst (groupby_sum df)"
    by (rule x_range_create_dashboard)
  have totals: "\<forall>(k, t) \<in> set (groupby_sum df). t = category_sales df k"
    using groupby_sum_totals by blast
  show ?thesis
    unfolding src axis
    using groupby_sum_keys_ascending [of df] groupby_sum_keys_set [of df] totals
    by blast
qed

theorem C1_aggregation_ascending_categories_witness:
  "bar_source (p_bar (create_dashboard three_rows)) = [(''Clothing'', 250), (''Home'', 400)] \<and>
   x_range (p_bar (create_dashboard three_rows)) = [''Clothing'', ''Home''] \<and>
   category_sales three_rows ''Clothing'' = 250 \<and>
   category_sales three_rows ''Home'' = 400"
proof -
  have src: "bar_source (p_bar (create_dashboard three_rows))
               = [(''Clothing'', 250), (''Home'', 400)]"
    by (simp add: bar_source_create_dashboard groupby_sum_def collect_groups_def three_rows_def)
  show ?thesis
    using C1_aggregation_ascending_categories [of three_rows]
    unfolding src by simp
qed

text \<open>
  Claim C3, the aggregation law: for every data frame, the totals of the aggregated rows
  of the bar chart add up to the sum of the sales of all rows of the frame.
\<close>

theorem C3_aggregation_law:
  "sum_list (map snd (bar_source (p_bar (create_dashboard df)))) = sum_list (map Sales df)"
  by (simp add: bar_source_create_dashboard groupby_sum_total_sales)

section \<open>Properties of the generator\<close>

lemma epoch_value: "epoch = 19358"
  by (simp add: epoch_def days_from_civil_def)

lemma Timestamp_max_value: "Timestamp_max = 106751"
  by (simp add: Timestamp_max_def days_from_civil_def)

lemma lcg_draws_length: "length (fst (lcg_draws n g)) = n"
proof (induction n arbitrary: g)
  case 0
  show ?case by simp
next
  case (Suc n)
  have "length (fst (lcg_draws n (lcg g))) = n" by (rule Suc.IH)
  then show ?case by (simp add: Let_def split_beta)
qed

lemma lcg_random_choice:
  assumes "xs \<noteq> []"
  shows "\<exists>ys. fst (rng_choice lcg_random xs n g) = Inr ys \<and> length ys = n \<and> set ys \<subseteq> set xs"
proof -
  let ?ys = "map (\<lambda>d. xs ! (d mod length xs)) (fst (lcg_draws n g))"
  have res: "fst (rng_choice lcg_random xs n g) = Inr ?ys"
    by (simp add: lcg_random_def Let_def split_beta)
  have len: "length ?ys = n"
    by (simp add: lcg_draws_length)
  have "xs ! (d mod length xs) \<in> set xs" for d
    using assms by simp
  then have sub: "set ?ys \<subseteq> set xs"
    by auto
  from res len sub show ?thesis
    by (intro exI [of _ ?ys] conjI)
qed

lemma lcg_random_randint:
  assumes "lo < hi"
  shows "\<exists>ys. fst (rng_randint lcg_random lo hi n g) = Inr ys \<and> length ys = n \<and>
              (\<forall>x \<in> set ys. lo \<le> x \<and> x < hi)"
proof -
  let ?ys = "map (\<lambda>d. lo + int d mod (hi - lo)) (fst (lcg_draws n g))"
  have res: "fst (rng_randint lcg_random lo hi n g) = Inr ?ys"
    by (simp add: lcg_random_def Let_def split_beta)
  have len: "length ?ys = n"
    by (simp add: lcg_draws_length)
  have pos: "0 < hi - lo" using assms by simp
  have "lo \<le> lo + int d mod (hi - lo) \<and> lo + int d mod (hi - lo) < hi" for d
    using pos_mod_bound [OF pos, of "int d"] pos_mod_sign [OF pos, of "int d"]
    by linarith
  then have bounds: "\<forall>x \<in> set ?ys. lo \<le> x \<and> x < hi"
    by auto
  from res len bounds show ?thesis
    by (intro exI [of _ ?ys] conjI)
qed

lemma lcg_random_contract: "rng_contract lcg_random"
  unfolding rng_contract_def
proof (intro conjI allI impI)
  fix xs :: "string list" and n g
  assume "xs \<noteq> []"
  then show "\<exists>ys. fst (rng_choice lcg_random xs n g) = Inr ys \<and> length ys = n \<and>
                  set ys \<subseteq> set xs"
    by (rule lcg_random_choice)
next
  fix lo hi :: int and n g
  assume "lo < hi"
  then show "\<exists>ys. fst (rng_randint lcg_random lo hi n g) = Inr ys \<and> length ys = n \<and>
                  (\<forall>x \<in> set ys. lo \<le> x \<and> x < hi)"
    by (rule lcg_random_randint)
qed

lemma rng_contract_choice:
  assumes "rng_contract R" and "xs \<noteq> []"
  shows "\<exists>ys. fst (rng_choice R xs n g) = Inr ys \<and> length ys = n \<and> set ys \<subseteq> set xs"
proof -
  from assms(1) have "\<forall>xs n g. xs \<noteq> [] \<longrightarrow>
        (\<exists>ys. fst (rng_choice R xs n g) = Inr ys \<and> length ys = n \<and> set ys \<subseteq> set xs)"
    unfolding rng_contract_def by (rule conjunct1)
  then have step: "xs \<noteq> [] \<longrightarrow>
        (\<exists>ys. fst (rng_choice R xs n g) = Inr ys \<and> length ys = n \<and> set ys \<subseteq> set xs)"
    by (elim allE)
  from step assms(2) show ?thesis by (rule mp)
qed

lemma rng_contract_randint:
  assumes "rng_contract R" and "lo < hi"
  shows "\<exists>ys. fst (rng_randint R lo hi n g) = Inr ys \<and> length ys = n \<and>
              (\<forall>x \<in> set ys. lo \<le> x \<and> x < hi)"
proof -
  from assms(1) have "\<forall>lo hi n g. lo < hi \<longrightarrow>
        (\<exists>ys. fst (rng_randint R lo hi n g) = Inr ys \<and> length ys = n \<and>
              (\<forall>x \<in> set ys. lo \<le> x \<and> x < hi))"
    unfolding rng_contract_def by (rule conjunct2)
  then have step: "lo < hi \<longrightarrow>
        (\<exists>ys. fst (rng_randint R lo hi n g) = Inr ys \<and> length ys = n \<and>
              (\<forall>x \<in> set ys. lo \<le> x \<and> x < hi))"
    by (elim allE)
  from step assms(2) show ?thesis by (rule mp)
qed

lemma DataFrame_Inr:
  assumes "length cs = length ds" "length ss = length ds" "length ps = length ds"
  shows "DataFrame ds cs ss ps =
    Inr (map (\<lambda>(d, c, s, p). \<lparr>Date = d, Category = c, Sales = s, Profit = p\<rparr>)
                    (zip ds (zip cs (zip ss ps))))"
  using assms by (simp add: DataFrame_def)

lemma DataFrame_columns:
  assumes "length cs = length ds" "length ss = length ds" "length ps = length ds"
    and "DataFrame ds cs ss ps = Inr df"
  shows "map Date df = ds" "map Category df = cs" "map Sales df = ss" "map Profit df = ps"
proof -
  have df: "df = map (\<lambda>(d, c, s, p). \<lparr>Date = d, Category = c, Sales = s, Profit = p\<rparr>)
                    (zip ds (zip cs (zip ss ps)))"
    using assms by (simp add: DataFrame_def)
  show "map Date df = ds" unfolding df using assms(1-3)
    by (intro nth_equalityI) simp_all
  show "map Category df = cs" unfolding df using assms(1-3)
    by (intro nth_equalityI) simp_all
  show "map Sales df = ss" unfolding df using assms(1-3)
    by (intro nth_equalityI) simp_all
  show "map Profit df = ps" unfolding df using assms(1-3)
    by (intro nth_equalityI) simp_all
qed

lemma DataFrame_length: "DataFrame ds cs ss ps = Inr df \<Longrightarrow> length df = length ds"
  by (auto simp: DataFrame_def split: if_splits)

lemma sorted_day_steps: "sorted (day_steps start n 3)"
  unfolding day_steps_def by (simp add: sorted_map sorted_wrt_iff_nth_less)

lemma length_day_steps: "length (day_steps start n step) = n"
  by (simp add: day_steps_def)

lemma nth_day_steps: "i < n \<Longrightarrow> day_steps start n step ! i = start + step * int i"
  by (simp add: day_steps_def)

text \<open>
  From 2023-01-01 in steps of three days, 29132 is the largest number of periods whose
  last day is not after the last timestamp.
\<close>

lemma date_range_ok:
  assumes "0 \<le> rows" and "rows \<le> 29132"
  shows "date_range R epoch rows 3 = Inr (day_steps epoch (nat rows) 3)"
  using assms by (simp add: date_range_def epoch_value Timestamp_max_value)

lemma date_range_refused:
  assumes "rows < 0 \<or> 29132 < rows"
  shows "date_range R epoch rows 3 = Inl (date_range_raises R rows)"
  using assms by (auto simp: date_range_def epoch_value Timestamp_max_value)

lemma generate_sales_data_step:
  assumes "date_range R epoch rows 3 = Inr dates"
    and "rng_choice R categories (nat rows) (rng_seed R 42) = (Inr cats, g2)"
    and "rng_randint R 100 1000 (nat rows) g2 = (Inr sales, g3)"
    and "rng_randint R 10 300 (nat rows) g3 = (Inr profit, g4)"
  shows "generate_sales_data R rows g0 =
           (case DataFrame dates cats sales profit of
              Inl e \<Rightarrow> (Inl e, g4)
            | Inr df \<Rightarrow> (Inr (sort_values_Date df), g4))"
  by (simp add: generate_sales_data_def np_random_seed_def Let_def assms)

lemma generate_sales_data_refused:
  assumes "rows < 0 \<or> 29132 < rows"
  shows "generate_sales_data R rows g0 = (Inl (date_range_raises R rows), rng_seed R 42)"
  by (simp add: generate_sales_data_def np_random_seed_def Let_def
      date_range_refused [OF assms])

lemma generate_sales_data_ok:
  assumes R: "rng_contract R" and rows: "0 \<le> rows" "rows \<le> 29132"
  shows "\<exists>df. fst (generate_sales_data R rows g0) = Inr df \<and>
           map Date df = day_steps epoch (nat rows) 3 \<and>
           set (map Category df) \<subseteq> set categories \<and>
           (\<forall>x \<in> set (map Sales df). 100 \<le> x \<and> x < 1000) \<and>
           (\<forall>x \<in> set (map Profit df). 10 \<le> x \<and> x < 300)"
proof -
  define n where "n = nat rows"
  define ds where "ds = day_steps epoch n 3"
  have cats: "categories \<noteq> []" by (simp add: categories_def)
  from rng_contract_choice [OF R cats, of n "rng_seed R 42"] obtain cs where
    c: "fst (rng_choice R categories n (rng_seed R 42)) = Inr cs"
    and lc: "length cs = n" and sc: "set cs \<subseteq> set categories"
    by blast
  define g2 where "g2 = snd (rng_choice R categories n (rng_seed R 42))"
  from rng_contract_randint [OF R, of 100 1000 n g2] obtain ss where
    s: "fst (rng_randint R 100 1000 n g2) = Inr ss"
    and ls: "length ss = n" and bs: "\<forall>x \<in> set ss. 100 \<le> x \<and> x < 1000"
    by auto
  define g3 where "g3 = snd (rng_randint R 100 1000 n g2)"
  from rng_contract_randint [OF R, of 10 300 n g3] obtain ps where
    p: "fst (rng_randint R 10 300 n g3) = Inr ps"
    and lp: "length ps = n" and bp: "\<forall>x \<in> set ps. 10 \<le> x \<and> x < 300"
    by auto
  define g4 where "g4 = snd (rng_randint R 10 300 n g3)"
  have c': "rng_choice R categories (nat rows) (rng_seed R 42) = (Inr cs, g2)"
    using c by (simp add: prod_eq_iff g2_def n_def)
  have s': "rng_randint R 100 1000 (nat rows) g2 = (Inr ss, g3)"
    using s by (simp add: prod_eq_iff g3_def n_def)
  have p': "rng_randint R 10 300 (nat rows) g3 = (Inr ps, g4)"
    using p by (simp add: prod_eq_iff g4_def n_def)
  have d': "date_range R epoch rows 3 = Inr ds"
    using date_range_ok [OF rows] by (simp add: ds_def n_def)
  have ld: "length ds = n" by (simp add: ds_def length_day_steps)
  obtain df where df: "DataFrame ds cs ss ps = Inr df"
    using DataFrame_Inr [of cs ds ss ps] lc ls lp ld by simp
  have cols: "map Date df = ds" "map Category df = cs" "map Sales df = ss"
    "map Profit df = ps"
    using DataFrame_columns [OF _ _ _ df] lc ls lp ld by simp_all
  have "sorted (map Date df)"
    by (simp add: cols ds_def sorted_day_steps)
  then have same: "sort_values_Date df = df"
    by (simp add: sort_values_Date_def sort_key_id_if_sorted)
  have res: "fst (generate_sales_data R rows g0) = Inr df"
    by (simp add: generate_sales_data_step [OF d' c' s' p'] df same)
  have dates: "map Date df = day_steps epoch (nat rows) 3"
    by (simp only: cols ds_def n_def)
  have c_ok: "set (map Category df) \<subseteq> set categories"
    using sc by (simp only: cols)
  have s_ok: "\<forall>x \<in> set (map Sales df). 100 \<le> x \<and> x < 1000"
    using bs by (simp only: cols)
  have p_ok: "\<forall>x \<in> set (map Profit df). 10 \<le> x \<and> x < 300"
    using bp by (simp only: cols)
  from res dates c_ok s_ok p_ok show ?thesis
    by (intro exI [of _ df] conjI)
qed

lemma generate_sales_data_in_range:
  assumes "fst (generate_sales_data R rows g0) = Inr df"
  shows "0 \<le> rows \<and> rows \<le> 29132"
proof (rule ccontr)
  assume "\<not> (0 \<le> rows \<and> rows \<le> 29132)"
  then have "rows < 0 \<or> 29132 < rows" by auto
  from generate_sales_data_refused [OF this, of R g0] assms show False by simp
qed

lemma generate_sales_data_length:
  assumes "fst (generate_sales_data R rows g0) = Inr df"
  shows "int (length df) = rows"
proof -
  from generate_sales_data_in_range [OF assms] have rows: "0 \<le> rows" "rows \<le> 29132"
    by simp_all
  have dr: "date_range R epoch rows 3 = Inr (day_steps epoch (nat rows) 3)"
    by (rule date_range_ok [OF rows])
  from assms obtain cs ss ps df0 where
    df0: "DataFrame (day_steps epoch (nat rows) 3) cs ss ps = Inr df0"
    and df: "df = sort_values_Date df0"
    by (auto simp: generate_sales_data_def Let_def split_beta dr split: sum.splits)
  have "length df0 = nat rows"
    using DataFrame_length [OF df0] by (simp add: length_day_steps)
  with rows df show ?thesis
    by (simp add: sort_values_Date_def)
qed

lemma generate_sales_data_seeded:
  "generate_sales_data R rows g = generate_sales_data R rows g'"
  by (simp add: generate_sales_data_def np_random_seed_def)

text \<open>The generator run on three rows with the small library.\<close>

lemma lcg_draws_3: "lcg_draws 3 g = ([lcg g, lcg (lcg g), lcg (lcg (lcg g))], lcg (lcg (lcg g)))"
  by (simp add: eval_nat_numeral Let_def)

lemma lcg_random_choice_3:
  "rng_choice lcg_random categories 3 42 = (Inr [''Home'', ''Sports'', ''Home''], 52412)"
  by (simp add: lcg_random_def lcg_draws_3 lcg_def categories_def)

lemma lcg_random_sales_3:
  "rng_randint lcg_random 100 1000 3 52412 = (Inr [491, 898, 433], 9333)"
  by (simp add: lcg_random_def lcg_draws_3 lcg_def)

lemma lcg_random_profit_3:
  "rng_randint lcg_random 10 300 3 9333 = (Inr [29, 212, 181], 56141)"
  by (simp add: lcg_random_def lcg_draws_3 lcg_def)

lemma date_range_3: "date_range R epoch 3 3 = Inr [19358, 19361, 19364]"
proof -
  have "date_range R epoch 3 3 = Inr (day_steps epoch (nat 3) 3)"
    by (rule date_range_ok) simp_all
  then show ?thesis
    by (simp add: day_steps_def epoch_value eval_nat_numeral)
qed

lemma lcg_random_seed_42: "rng_seed lcg_random 42 = 42"
  by (simp add: lcg_random_def)

lemma generate_sample:
  "generate_sales_data lcg_random 3 g =
     (Inr [\<lparr>Date = 19358, Category = ''Home'', Sales = 491, Profit = 29\<rparr>,
           \<lparr>Date = 19361, Category = ''Sports'', Sales = 898, Profit = 212\<rparr>,
           \<lparr>Date = 19364, Category = ''Home'', Sales = 433, Profit = 181\<rparr>], 56141)"
proof -
  have c: "rng_choice lcg_random categories (nat 3) (rng_seed lcg_random 42)
             = (Inr [''Home'', ''Sports'', ''Home''], 52412)"
    by (simp add: lcg_random_seed_42 lcg_random_choice_3)
  have s: "rng_randint lcg_random 100 1000 (nat 3) 52412 = (Inr [491, 898, 433], 9333)"
    by (simp add: lcg_random_sales_3)
  have p: "rng_randint lcg_random 10 300 (nat 3) 9333 = (Inr [29, 212, 181], 56141)"
    by (simp add: lcg_random_profit_3)
  show ?thesis
    by (simp add: generate_sales_data_step [OF date_range_3 c s p] DataFrame_def
        sort_values_Date_def)
qed

section \<open>Claims on the generator\<close>

text \<open>
  Claim C2: \<^verbatim>\<open>generate_sales_data\<close> is deterministic. For every row count, two calls
  return the same result (the same frame, or the same error), whatever the state of the
  random number generator before each call; in particular a second call made right after
  a first one, from the state the first one left, repeats its result.
\<close>

theorem C2_generate_deterministic:
  "fst (generate_sales_data R rows g) = fst (generate_sales_data R rows g') \<and>
   fst (generate_sales_data R rows (snd (generate_sales_data R rows g)))
     = fst (generate_sales_data R rows g)"
  using generate_sales_data_seeded [of R rows g g']
    generate_sales_data_seeded [of R rows "snd (generate_sales_data R rows g)" g]
  by simp

text \<open>
  Claim C4: for every positive row count, with a random number generator that keeps the
  library's contract, every row of the frame the call returns has one of the six
  categories, sales from 100 (inclusive) to 1000 (exclusive) and a profit from 10
  (inclusive) to 300 (exclusive); and the call does return a frame for every row count
  up to 29132, the largest whose dates the library represents.
\<close>

theorem C4_generated_values_in_range:
  assumes "rng_contract R" and "0 < rows"
  shows "(\<forall>df. fst (generate_sales_data R rows g) = Inr df \<longrightarrow>
           (\<forall>r \<in> set df.
              Category r \<in> {''Electronics'', ''Clothing'', ''Home'', ''Garden'', ''Toys'', ''Sports''} \<and>
              100 \<le> Sales r \<and> Sales r < 1000 \<and> 10 \<le> Profit r \<and> Profit r < 300)) \<and>
         (rows \<le> 29132 \<longrightarrow> (\<exists>df. fst (generate_sales_data R rows g) = Inr df))"
proof -
  have ranges: "Category r \<in> {''Electronics'', ''Clothing'', ''Home'', ''Garden'', ''Toys'', ''Sports''} \<and>
        100 \<le> Sales r \<and> Sales r < 1000 \<and> 10 \<le> Profit r \<and> Profit r < 300"
    if ret: "fst (generate_sales_data R rows g) = Inr df" and r: "r \<in> set df" for df r
  proof -
    from generate_sales_data_in_range [OF ret] have "0 \<le> rows" "rows \<le> 29132"
      by simp_all
    from generate_sales_data_ok [OF assms(1) this, of g] ret have
      c: "set (map Category df) \<subseteq> set categories"
      and s: "\<forall>x \<in> set (map Sales df). 100 \<le> x \<and> x < 1000"
      and p: "\<forall>x \<in> set (map Profit df). 10 \<le> x \<and> x < 300"
      by auto
    from r have "Category r \<in> set (map Category df)" "Sales r \<in> set (map Sales df)"
      "Profit r \<in> set (map Profit df)"
      by simp_all
    with c s p have "Category r \<in> set categories" "100 \<le> Sales r \<and> Sales r < 1000"
      "10 \<le> Profit r \<and> Profit r < 300"
      by blast+
    then show ?thesis by (simp add: categories_def)
  qed
  have returns: "\<exists>df. fst (generate_sales_data R rows g) = Inr df" if "rows \<le> 29132"
  proof -
    from assms(2) have "0 \<le> rows" by simp
    from generate_sales_data_ok [OF assms(1) this that, of g] show ?thesis by blast
  qed
  from ranges returns show ?thesis by blast
qed

theorem C4_generated_values_in_range_witness:
  "(0::int) < 3 \<and>
   list_all (\<lambda>r. Category r \<in> {''Electronics'', ''Clothing'', ''Home'', ''Garden'', ''Toys'', ''Sports''} \<and>
                 100 \<le> Sales r \<and> Sales r < 1000 \<and> 10 \<le> Profit r \<and> Profit r < 300)
     [\<lparr>Date = 19358, Category = ''Home'', Sales = 491, Profit = 29\<rparr>,
      \<lparr>Date = 19361, Category = ''Sports'', Sales = 898, Profit = 212\<rparr>,
      \<lparr>Date = 19364, Category = ''Home'', Sales = 433, Profit = 181\<rparr>]"
proof -
  have pos: "(0::int) < 3" by simp
  from C4_generated_values_in_range [OF lcg_random_contract pos, of 7]
  show ?thesis
    unfolding generate_sample by (simp add: list_all_iff)
qed

text \<open>
  Claim C5, as the specification states it: for every positive row count the call
  returns exactly that many records. It fails when the dates leave the range of the
  library's timestamps: for 29133 rows the last date would be 2262-04-14, and
  \<^verbatim>\<open>pd.date_range\<close> raises instead of returning.
\<close>

theorem C5_row_count_counterexample:
  "(0::int) < 29133 \<and>
   fst (generate_sales_data lcg_random 29133 7)
     = Inl (ValueError (Library_text ''Cannot generate range''))"
proof -
  have "(29133::int) < 0 \<or> 29132 < (29133::int)" by simp
  from generate_sales_data_refused [OF this, of lcg_random 7] show ?thesis
    by (simp add: lcg_random_def)
qed

text \<open>
  Claim C5, amended: with a random number generator that keeps the library's contract,
  for every positive row count up to 29132 the call returns exactly that many rows, the
  date of row \<open>i\<close> (counted from 0) is 2023-01-01 plus \<open>3 * i\<close> days, and the frame is
  sorted by date; for every larger row count the call returns no frame: it raises what
  \<^verbatim>\<open>pd.date_range\<close> raises, before any random draw.
\<close>

theorem C5_generated_dates:
  assumes "rng_contract R" and "0 < rows"
  shows "(rows \<le> 29132 \<longrightarrow>
           (\<exists>df. fst (generate_sales_data R rows g) = Inr df \<and>
              int (length df) = rows \<and>
              (\<forall>i < length df. Date (df ! i) = days_from_civil 2023 1 1 + 3 * int i) \<and>
              sorted (map Date df))) \<and>
         (29132 < rows \<longrightarrow>
            generate_sales_data R rows g = (Inl (date_range_raises R rows), rng_seed R 42))"
proof -
  have small: "\<exists>df. fst (generate_sales_data R rows g) = Inr df \<and>
              int (length df) = rows \<and>
              (\<forall>i < length df. Date (df ! i) = days_from_civil 2023 1 1 + 3 * int i) \<and>
              sorted (map Date df)"
    if le: "rows \<le> 29132"
  proof -
    from assms(2) have "0 \<le> rows" by simp
    from generate_sales_data_ok [OF assms(1) this le, of g] obtain df where
      res: "fst (generate_sales_data R rows g) = Inr df"
      and d: "map Date df = day_steps epoch (nat rows) 3"
      by blast
    from generate_sales_data_length [OF res] have len: "int (length df) = rows" .
    have "Date (df ! i) = days_from_civil 2023 1 1 + 3 * int i" if i: "i < length df" for i
    proof -
      from i have "Date (df ! i) = map Date df ! i" by simp
      also have "\<dots> = day_steps epoch (nat rows) 3 ! i" by (simp only: d)
      also have "\<dots> = epoch + 3 * int i"
        using i len by (intro nth_day_steps) simp
      finally show ?thesis by (simp add: epoch_def)
    qed
    moreover have "sorted (map Date df)"
      by (simp only: d sorted_day_steps)
    ultimately show ?thesis using res len by blast
  qed
  have large: "generate_sales_data R rows g = (Inl (date_range_raises R rows), rng_seed R 42)"
    if "29132 < rows"
    using that by (intro generate_sales_data_refused) simp
  from small large show ?thesis by blast
qed

theorem C5_generated_dates_witness:
  "(0::int) < 3 \<and> (3::int) \<le> 29132 \<and> days_from_civil 2023 1 1 = 19358 \<and>
   map Date [\<lparr>Date = 19358, Category = ''Home'', Sales = 491, Profit = 29\<rparr>,
             \<lparr>Date = 19361, Category = ''Sports'', Sales = 898, Profit = 212\<rparr>,
             \<lparr>Date = 19364, Category = ''Home'', Sales = 433, Profit = 181\<rparr>]
     = [19358, 19358 + 3, 19358 + 6] \<and>
   fst (generate_sales_data lcg_random 3 7) =
     Inr [\<lparr>Date = 19358, Category = ''Home'', Sales = 491, Profit = 29\<rparr>,
          \<lparr>Date = 19361, Category = ''Sports'', Sales = 898, Profit = 212\<rparr>,
          \<lparr>Date = 19364, Category = ''Home'', Sales = 433, Profit = 181\<rparr>] \<and>
   (29132::int) < 29133 \<and>
   generate_sales_data lcg_random 29133 7
     = (Inl (ValueError (Library_text ''Cannot generate range'')), 42)"
proof -
  have pos: "(0::int) < 3" and pos': "(0::int) < 29133" by simp_all
  from C5_generated_dates [OF lcg_random_contract pos, of 7]
    C5_generated_dates [OF lcg_random_contract pos', of 7]
  show ?thesis
    unfolding generate_sample by (simp add: days_from_civil_def lcg_random_def)
qed

text \<open>
  Claim C9: with a random number generator that keeps the library's contract,
  \<^verbatim>\<open>generate_sales_data(0)\<close> returns the empty frame and raises nothing; with a negative
  row count the call raises: \<^verbatim>\<open>pd.date_range\<close>, the first call to take the row count,
  refuses it, after the seeding and before any random draw.
\<close>

theorem C9_generate_zero_and_negative:
  assumes "rng_contract R"
  shows "fst (generate_sales_data R 0 g) = Inr [] \<and>
         (rows < 0 \<longrightarrow>
            (\<exists>e. fst (generate_sales_data R rows g) = Inl e) \<and>
            snd (generate_sales_data R rows g) = rng_seed R 42)"
proof -
  from generate_sales_data_ok [OF assms, of 0 g] obtain df where
    res: "fst (generate_sales_data R 0 g) = Inr df" by auto
  from generate_sales_data_length [OF res] have "df = []" by simp
  with res have zero: "fst (generate_sales_data R 0 g) = Inr []" by simp
  have neg: "(\<exists>e. fst (generate_sales_data R rows g) = Inl e) \<and>
            snd (generate_sales_data R rows g) = rng_seed R 42" if "rows < 0"
  proof -
    from that have "rows < 0 \<or> 29132 < rows" by simp
    from generate_sales_data_refused [OF this, of R g] show ?thesis by simp
  qed
  from zero neg show ?thesis by blast
qed

theorem C9_generate_zero_and_negative_witness:
  "fst (generate_sales_data lcg_random 0 7) = Inr [] \<and> (- 1 :: int) < 0 \<and>
   isl (fst (generate_sales_data lcg_random (- 1) 7)) \<and>
   snd (generate_sales_data lcg_random (- 1) 7) = 42"
proof -
  from C9_generate_zero_and_negative [OF lcg_random_contract, of 7 "- 1"]
  show ?thesis by (auto simp: lcg_random_def)
qed

section \<open>Properties of the entry point\<close>

lemma strip_report: "strip ''report'' = ''report''"
  by (simp add: strip_def isspace_def)

lemma strip_spaces: "strip ''  '' = []"
  by (simp add: strip_def isspace_def)

lemma endswith_report: "\<not> endswith ''report'' ''.html''"
  by (simp add: endswith_def)

lemma main_input_raises:
  assumes "stdin_line W = Inl e"
  shows "main R W = except_clauses e
           \<lparr>stdout = [Banner, Prompt], stages = [], files = [], np_state = np_state0 W\<rparr>"
  using assms by (simp add: main_def try_body_def Let_def print_line_def)

lemma main_blank:
  assumes "stdin_line W = Inr answer" and "strip answer = []"
  shows "main R W =
           (\<lparr>stdout = [Banner, Prompt, Input_error Filename_empty], stages = [], files = [],
             np_state = np_state0 W\<rparr>, None)"
  using assms by (simp add: main_def try_body_def Let_def print_line_def)

lemma main_generate_raises:
  assumes "stdin_line W = Inr answer" and "strip answer \<noteq> []"
    and "fst (generate_sales_data R rows_default (np_state0 W)) = Inl e"
  shows "main R W = except_clauses e
           \<lparr>stdout = [Banner, Prompt, Step_generate], stages = [Generate], files = [],
            np_state = snd (generate_sales_data R rows_default (np_state0 W))\<rparr>"
  using assms
  by (simp add: main_def try_body_def Let_def print_line_def enter_def split_beta)

lemma main_build_raises:
  assumes "stdin_line W = Inr answer" and "strip answer \<noteq> []"
    and "fst (generate_sales_data R rows_default (np_state0 W)) = Inr df"
    and "build_fails W = Some e"
  shows "main R W = except_clauses e
           \<lparr>stdout = [Banner, Prompt, Step_generate, Step_build], stages = [Generate, Build],
            files = [],
            np_state = snd (generate_sales_data R rows_default (np_state0 W))\<rparr>"
  using assms
  by (simp add: main_def try_body_def Let_def print_line_def enter_def split_beta)

lemma main_save_raises:
  assumes "stdin_line W = Inr answer" and "strip answer \<noteq> []"
    and "fst (generate_sales_data R rows_default (np_state0 W)) = Inr df"
    and "build_fails W = None"
    and path: "path = (if endswith (strip answer) ''.html'' then strip answer
                 else strip answer @ ''.html'')"
    and "save_fails W path = Some e"
  shows "main R W = except_clauses e
           \<lparr>stdout = [Banner, Prompt, Step_generate, Step_build, Step_save path],
            stages = [Generate, Build, Save path], files = [],
            np_state = snd (generate_sales_data R rows_default (np_state0 W))\<rparr>"
proof (cases "endswith (strip answer) ''.html''")
  case True
  with path have "path = strip answer" by simp
  with assms True show ?thesis
    by (simp add: main_def try_body_def Let_def print_line_def enter_def split_beta
        save_report_def)
next
  case False
  with path have "path = strip answer @ ''.html''" by simp
  with assms False show ?thesis
    by (simp add: main_def try_body_def Let_def print_line_def enter_def split_beta
        save_report_def)
qed

lemma main_success:
  assumes "stdin_line W = Inr answer" and "strip answer \<noteq> []"
    and "fst (generate_sales_data R rows_default (np_state0 W)) = Inr df"
    and "build_fails W = None"
    and path: "path = (if endswith (strip answer) ''.html'' then strip answer
                 else strip answer @ ''.html'')"
    and "save_fails W path = None"
  shows "main R W =
           (\<lparr>stdout = [Banner, Prompt, Step_generate, Step_build, Step_save path, Success path],
             stages = [Generate, Build, Save path], files = [(path, create_dashboard df)],
             np_state = snd (generate_sales_data R rows_default (np_state0 W))\<rparr>, None)"
proof (cases "endswith (strip answer) ''.html''")
  case True
  with path have "path = strip answer" by simp
  with assms True show ?thesis
    by (simp add: main_def try_body_def Let_def print_line_def enter_def split_beta
        save_report_def)
next
  case False
  with path have "path = strip answer @ ''.html''" by simp
  with assms False show ?thesis
    by (simp add: main_def try_body_def Let_def print_line_def enter_def split_beta
        save_report_def)
qed

lemma generate_default_ok:
  assumes "rng_contract R"
  shows "\<exists>df. fst (generate_sales_data R rows_default g) = Inr df"
proof -
  have "(0::int) \<le> rows_default" "rows_default \<le> 29132"
    by (simp_all add: rows_default_def)
  from generate_sales_data_ok [OF assms this, of g] show ?thesis by blast
qed

text \<open>
  What a handler leaves: for each class it names, its own line at the end of the output
  and nothing leaving \<^verbatim>\<open>main\<close>; files and earlier lines are untouched.
\<close>

lemma except_clauses_files: "files (fst (except_clauses e s)) = files s"
  by (cases e) (simp_all add: print_line_def)

lemma except_clauses_no_success:
  assumes "\<forall>p. Success p \<notin> set (stdout s)"
  shows "\<forall>p. Success p \<notin> set (stdout (fst (except_clauses e s)))"
  using assms by (cases e) (simp_all add: print_line_def)

lemma except_clauses_ValueError:
  "snd (except_clauses (ValueError t) s) = None \<and>
   last (stdout (fst (except_clauses (ValueError t) s))) = Input_error t"
  by (simp add: print_line_def)

lemma except_clauses_OSError:
  "snd (except_clauses (OSError t) s) = None \<and>
   last (stdout (fst (except_clauses (OSError t) s))) = Fs_error t"
  by (simp add: print_line_def)

lemma except_clauses_OtherException:
  "snd (except_clauses (OtherException t) s) = None \<and>
   last (stdout (fst (except_clauses (OtherException t) s))) = Unexpected_error t"
  by (simp add: print_line_def)

section \<open>Claims on the entry point\<close>

text \<open>
  Claim C6: for every answer that is not blank, in a run that reaches the save (the
  random number generator keeps the library's contract and building the charts raises
  nothing), the file name handed to the report writer is the stripped answer itself if it
  ends with \<^verbatim>\<open>.html\<close>, and the stripped answer followed by \<^verbatim>\<open>.html\<close> otherwise; the
  announcement of the save names this file, and when the write does not fail this is the
  one file written.
\<close>

theorem C6_output_path:
  assumes "rng_contract R" and "stdin_line W = Inr answer" and "strip answer \<noteq> []"
    and "build_fails W = None"
    and "path = (if endswith (strip answer) ''.html'' then strip answer
                 else strip answer @ ''.html'')"
  shows "stages (fst (main R W)) = [Generate, Build, Save path] \<and>
         Step_save path \<in> set (stdout (fst (main R W))) \<and>
         (save_fails W path = None \<longrightarrow> map fst (files (fst (main R W))) = [path])"
proof -
  from generate_default_ok [OF assms(1), of "np_state0 W"] obtain df where
    df: "fst (generate_sales_data R rows_default (np_state0 W)) = Inr df"
    by blast
  show ?thesis
  proof (cases "save_fails W path")
    case None
    from main_success [OF assms(2,3) df assms(4,5) None] show ?thesis
      by simp
  next
    case (Some e)
    from main_save_raises [OF assms(2,3) df assms(4,5) Some] show ?thesis
      by (cases e) (simp_all add: Some print_line_def)
  qed
qed

theorem C6_output_path_witness:
  "stages (fst (main lcg_random (sample_world ''report'')))
     = [Generate, Build, Save ''report.html''] \<and>
   map fst (files (fst (main lcg_random (sample_world ''report'')))) = [''report.html''] \<and>
   stages (fst (main lcg_random (sample_world ''report.html'')))
     = [Generate, Build, Save ''report.html''] \<and>
   map fst (files (fst (main lcg_random (sample_world ''report.html'')))) = [''report.html'']"
proof -
  have a: "stdin_line (sample_world ''report'') = Inr ''report''"
    and b: "stdin_line (sample_world ''report.html'') = Inr ''report.html''"
    by (simp_all add: sample_world_def)
  have a': "strip ''report'' \<noteq> []" and b': "strip ''report.html'' \<noteq> []"
    by (simp_all add: strip_def isspace_def)
  have ba: "build_fails (sample_world ''report'') = None"
    and bb: "build_fails (sample_world ''report.html'') = None"
    by (simp_all add: sample_world_def)
  have pa: "''report.html'' = (if endswith (strip ''report'') ''.html'' then strip ''report''
                 else strip ''report'' @ ''.html'')"
    by (simp add: strip_report endswith_report)
  have pb: "''report.html'' = (if endswith (strip ''report.html'') ''.html''
                 then strip ''report.html'' else strip ''report.html'' @ ''.html'')"
    by (simp add: strip_def isspace_def endswith_def)
  from C6_output_path [OF lcg_random_contract a a' ba pa]
    C6_output_path [OF lcg_random_contract b b' bb pb]
  show ?thesis
    by (simp add: sample_world_def)
qed

text \<open>
  Claim C7: for every answer that is empty or blank after stripping, the run prints the
  input error with the message of the empty file name and ends: no stage is called (no
  generation, no chart building, no save), the random number generator is not touched,
  no file is written, and no exception leaves \<^verbatim>\<open>main\<close>.
\<close>

theorem C7_blank_filename:
  assumes "stdin_line W = Inr answer" and "strip answer = []"
  shows "main R W =
           (\<lparr>stdout = [Banner, Prompt, Input_error Filename_empty], stages = [], files = [],
             np_state = np_state0 W\<rparr>, None)"
  using assms by (rule main_blank)

theorem C7_blank_filename_witness:
  "main lcg_random (sample_world ''  '') =
     (\<lparr>stdout = [Banner, Prompt, Input_error Filename_empty], stages = [], files = [],
       np_state = 7\<rparr>, None)"
proof -
  have a: "stdin_line (sample_world ''  '') = Inr ''  ''"
    by (simp add: sample_world_def)
  from C7_blank_filename [OF a strip_spaces, of lcg_random] show ?thesis
    by (simp add: sample_world_def)
qed

text \<open>
  Claim C8: whatever raises in the body of \<^verbatim>\<open>main\<close> is reported by the line of its class
  and ends the run without a file. The exception \<open>e\<close> may come from reading the answer,
  from the check of the file name, from the generator, from building the charts or from
  writing the file. Then no file is written and no success message is printed; and if \<open>e\<close>
  is a \<^verbatim>\<open>ValueError\<close>, an \<^verbatim>\<open>OSError\<close> or of any other class derived from \<^verbatim>\<open>Exception\<close>, no
  exception leaves \<^verbatim>\<open>main\<close> (the process ends normally, with status 0) and the last line
  printed is, in this order, the input error, the file system error or the unexpected
  error, each with the text of \<open>e\<close>. In particular an \<^verbatim>\<open>OSError\<close> raised by the write to a
  path that cannot be written is reported by the file system error line.
\<close>

theorem C8_failures_reported:
  assumes "stdin_line W = Inl e \<or>
           (stdin_line W = Inr answer \<and> strip answer = [] \<and> e = ValueError Filename_empty) \<or>
           (stdin_line W = Inr answer \<and> strip answer \<noteq> [] \<and>
            fst (generate_sales_data R rows_default (np_state0 W)) = Inl e) \<or>
           (stdin_line W = Inr answer \<and> strip answer \<noteq> [] \<and>
            fst (generate_sales_data R rows_default (np_state0 W)) = Inr df \<and>
            build_fails W = Some e) \<or>
           (stdin_line W = Inr answer \<and> strip answer \<noteq> [] \<and>
            fst (generate_sales_data R rows_default (np_state0 W)) = Inr df \<and>
            build_fails W = None \<and>
            save_fails W (if endswith (strip answer) ''.html'' then strip answer
                          else strip answer @ ''.html'') = Some e)"
  shows "files (fst (main R W)) = [] \<and>
         (\<forall>p. Success p \<notin> set (stdout (fst (main R W)))) \<and>
         (e = ValueError t \<longrightarrow>
            snd (main R W) = None \<and> last (stdout (fst (main R W))) = Input_error t) \<and>
         (e = OSError t \<longrightarrow>
            snd (main R W) = None \<and> last (stdout (fst (main R W))) = Fs_error t) \<and>
         (e = OtherException t \<longrightarrow>
            snd (main R W) = None \<and> last (stdout (fst (main R W))) = Unexpected_error t)"
proof -
  have "\<exists>s. main R W = except_clauses e s \<and> files s = [] \<and>
             (\<forall>p. Success p \<notin> set (stdout s))"
    using assms
  proof (elim disjE conjE)
    assume "stdin_line W = Inl e"
    from main_input_raises [OF this, of R] show ?thesis by auto
  next
    assume a: "stdin_line W = Inr answer" "strip answer = []" "e = ValueError Filename_empty"
    have "main R W = except_clauses e
           \<lparr>stdout = [Banner, Prompt], stages = [], files = [], np_state = np_state0 W\<rparr>"
      using main_blank [OF a(1,2), of R] a(3) by (simp add: print_line_def)
    then show ?thesis by auto
  next
    assume a: "stdin_line W = Inr answer" "strip answer \<noteq> []"
      "fst (generate_sales_data R rows_default (np_state0 W)) = Inl e"
    from main_generate_raises [OF a] show ?thesis by auto
  next
    assume a: "stdin_line W = Inr answer" "strip answer \<noteq> []"
      "fst (generate_sales_data R rows_default (np_state0 W)) = Inr df"
      "build_fails W = Some e"
    from main_build_raises [OF a] show ?thesis by auto
  next
    assume a: "stdin_line W = Inr answer" "strip answer \<noteq> []"
      "fst (generate_sales_data R rows_default (np_state0 W)) = Inr df"
      "build_fails W = None"
      "save_fails W (if endswith (strip answer) ''.html'' then strip answer
                          else strip answer @ ''.html'') = Some e"
    from main_save_raises [OF a(1-4) refl a(5)] show ?thesis by auto
  qed
  then obtain s where m: "main R W = except_clauses e s" and f: "files s = []"
    and n: "\<forall>p. Success p \<notin> set (stdout s)"
    by blast
  have nofile: "files (fst (main R W)) = []"
    by (simp add: m except_clauses_files f)
  have nosuccess: "\<forall>p. Success p \<notin> set (stdout (fst (main R W)))"
    unfolding m by (rule except_clauses_no_success [OF n])
  have ve: "snd (main R W) = None \<and> last (stdout (fst (main R W))) = Input_error t"
    if "e = ValueError t"
    unfolding m that by (rule except_clauses_ValueError)
  have oe: "snd (main R W) = None \<and> last (stdout (fst (main R W))) = Fs_error t"
    if "e = OSError t"
    unfolding m that by (rule except_clauses_OSError)
  have ue: "snd (main R W) = None \<and> last (stdout (fst (main R W))) = Unexpected_error t"
    if "e = OtherException t"
    unfolding m that by (rule except_clauses_OtherException)
  from nofile nosuccess ve oe ue show ?thesis by blast
qed

theorem C8_failures_reported_witness:
  "snd (main lcg_random (read_only_world ''report'')) = None \<and>
   last (stdout (fst (main lcg_random (read_only_world ''report''))))
     = Fs_error (Library_text ''Permission denied'') \<and>
   files (fst (main lcg_random (read_only_world ''report''))) = [] \<and>
   snd (main lcg_random closed_input_world) = None \<and>
   last (stdout (fst (main lcg_random closed_input_world)))
     = Unexpected_error (Library_text ''EOF when reading a line'') \<and>
   files (fst (main lcg_random closed_input_world)) = []"
proof -
  from generate_default_ok [OF lcg_random_contract, of "np_state0 (read_only_world ''report'')"]
  obtain df where
    df: "fst (generate_sales_data lcg_random rows_default (np_state0 (read_only_world ''report'')))
           = Inr df"
    by blast
  have unwritable: "stdin_line (read_only_world ''report'') = Inl (OSError (Library_text ''Permission denied'')) \<or>
           (stdin_line (read_only_world ''report'') = Inr ''report'' \<and> strip ''report'' = [] \<and>
            OSError (Library_text ''Permission denied'') = ValueError Filename_empty) \<or>
           (stdin_line (read_only_world ''report'') = Inr ''report'' \<and> strip ''report'' \<noteq> [] \<and>
            fst (generate_sales_data lcg_random rows_default (np_state0 (read_only_world ''report'')))
              = Inl (OSError (Library_text ''Permission denied''))) \<or>
           (stdin_line (read_only_world ''report'') = Inr ''report'' \<and> strip ''report'' \<noteq> [] \<and>
            fst (generate_sales_data lcg_random rows_default (np_state0 (read_only_world ''report'')))
              = Inr df \<and>
            build_fails (read_only_world ''report'') = Some (OSError (Library_text ''Permission denied''))) \<or>
           (stdin_line (read_only_world ''report'') = Inr ''report'' \<and> strip ''report'' \<noteq> [] \<and>
            fst (generate_sales_data lcg_random rows_default (np_state0 (read_only_world ''report'')))
              = Inr df \<and>
            build_fails (read_only_world ''report'') = None \<and>
            save_fails (read_only_world ''report'')
              (if endswith (strip ''report'') ''.html'' then strip ''report''
               else strip ''report'' @ ''.html'') = Some (OSError (Library_text ''Permission denied'')))"
    using df by (simp add: read_only_world_def strip_report)
  have closed: "stdin_line closed_input_world
                 = Inl (OtherException (Library_text ''EOF when reading a line''))"
    by (simp add: closed_input_world_def)
  from C8_failures_reported [OF unwritable, of "Library_text ''Permission denied''"]
    C8_failures_reported [OF disjI1, OF closed, of lcg_random
      "Library_text ''EOF when reading a line''"]
  show ?thesis by simp
qed

text \<open>
  Claim C10: \<^verbatim>\<open>main\<close> calls the generator with the default row count, 100, whatever the
  answer: the layout of every file a run writes is built from the frame the generator
  returns for 100 rows, and its line chart shows exactly 100 records.
\<close>

theorem C10_default_row_count:
  assumes "(p, lay) \<in> set (files (fst (main R W)))"
  shows "\<exists>df. fst (generate_sales_data R 100 g) = Inr df \<and> length df = 100 \<and>
              lay = create_dashboard df \<and> length (p_line lay) = 100"
proof (cases "stdin_line W")
  case (Inl e)
  from main_input_raises [OF Inl, of R] assms show ?thesis
    by (simp add: except_clauses_files)
next
  case (Inr ans)
  show ?thesis
  proof (cases "strip ans = []")
    case True
    from main_blank [OF Inr True, of R] assms show ?thesis by simp
  next
    case False
    show ?thesis
    proof (cases "fst (generate_sales_data R rows_default (np_state0 W))")
      case (Inl e)
      from main_generate_raises [OF Inr False Inl] assms show ?thesis
        by (simp add: except_clauses_files)
    next
      case df: (Inr df)
      define path where "path = (if endswith (strip ans) ''.html'' then strip ans
                 else strip ans @ ''.html'')"
      have gen: "fst (generate_sales_data R 100 g) = Inr df"
        using df generate_sales_data_seeded [of R 100 g "np_state0 W"]
        by (simp add: rows_default_def)
      from generate_sales_data_length [OF gen] have len: "length df = 100" by simp
      show ?thesis
      proof (cases "build_fails W")
        case (Some e)
        from main_build_raises [OF Inr False df Some] assms show ?thesis
          by (simp add: except_clauses_files)
      next
        case built: None
        show ?thesis
        proof (cases "save_fails W path")
          case None
          from main_success [OF Inr False df built path_def None] assms
          have "lay = create_dashboard df" by simp
          with gen len show ?thesis
            by (simp add: p_line_create_dashboard)
        next
          case (Some e)
          from main_save_raises [OF Inr False df built path_def Some] assms show ?thesis
            by (simp add: except_clauses_files)
        qed
      qed
    qed
  qed
qed

theorem C10_default_row_count_witness:
  "map fst (files (fst (main lcg_random (sample_world ''report'')))) = [''report.html''] \<and>
   length (p_line (snd (hd (files (fst (main lcg_random (sample_world ''report''))))))) = 100"
proof -
  from generate_default_ok [OF lcg_random_contract, of "np_state0 (sample_world ''report'')"]
  obtain df where
    df: "fst (generate_sales_data lcg_random rows_default (np_state0 (sample_world ''report'')))
           = Inr df"
    by blast
  have a: "stdin_line (sample_world ''report'') = Inr ''report''"
    and b: "build_fails (sample_world ''report'') = None"
    and s: "save_fails (sample_world ''report'') ''report.html'' = None"
    by (simp_all add: sample_world_def)
  have nb: "strip ''report'' \<noteq> []" by (simp add: strip_report)
  have pa: "''report.html'' = (if endswith (strip ''report'') ''.html'' then strip ''report''
                 else strip ''report'' @ ''.html'')"
    by (simp add: strip_report endswith_report)
  from main_success [OF a nb df b pa s]
  have fs: "files (fst (main lcg_random (sample_world ''report'')))
              = [(''report.html'', create_dashboard df)]"
    by simp
  then have "(''report.html'', create_dashboard df)
               \<in> set (files (fst (main lcg_random (sample_world ''report''))))"
    by simp
  from C10_default_row_count [OF this, of 7]
  have "length (p_line (create_dashboard df)) = 100" by blast
  with fs show ?thesis by simp
qed

end
